theory Spec2Isabelle
  imports Main "HOL-Library.AList"
begin

section \<open>JavaScript strings and values\<close>

text \<open>
  The web application is JavaScript. A JavaScript string is a sequence of code units;
  the model uses \<open>string\<close>, so a character is a code unit in the range U+0000..U+00FF.
  This covers the wire format of the device (newline-terminated ASCII lines) and every
  key and value of the Morse tables. The white space of \<open>trim()\<close> and of the regular
  expression class \<open>\s\<close> is, in that range: tab, line feed, vertical tab, form feed,
  carriage return, space and the no-break space U+00A0.
\<close>

definition isWhiteSpace :: "char \<Rightarrow> bool" where
  "isWhiteSpace c \<longleftrightarrow>
     c \<in> {CHR 0x09, CHR 0x0A, CHR 0x0B, CHR 0x0C, CHR 0x0D, CHR 0x20, CHR 0xA0}"

text \<open>\<open>s.trim()\<close>: white space removed at both ends.\<close>

definition trim :: "string \<Rightarrow> string" where
  "trim s = rev (dropWhile isWhiteSpace (rev (dropWhile isWhiteSpace s)))"

text \<open>
  \<open>s.split(sep)\<close> for a separator of one character: the pieces between the separators,
  empty pieces included; the empty string splits into one empty piece.
\<close>

fun jsSplit :: "char \<Rightarrow> string \<Rightarrow> string list" where
  "jsSplit sep [] = [[]]"
| "jsSplit sep (c # cs) =
     (if c = sep then [] # jsSplit sep cs
      else (c # hd (jsSplit sep cs)) # tl (jsSplit sep cs))"

text \<open>\<open>s.replace(/\s+/g, ' ')\<close>: every maximal run of white space becomes one space.\<close>

function replaceWs :: "string \<Rightarrow> string" where
  "replaceWs [] = []"
| "replaceWs (c # cs) =
     (if isWhiteSpace c then CHR 0x20 # replaceWs (dropWhile isWhiteSpace cs)
      else c # replaceWs cs)"
  by pat_completeness auto
termination
  by (relation "measure length") (auto simp: length_dropWhile_le less_Suc_eq_le)

text \<open>
  \<open>s.split(/\s+/)\<close>: the pieces between the maximal runs of white space; a run at
  the start or at the end leaves an empty piece there.
\<close>

function splitWs :: "string \<Rightarrow> string list" where
  "splitWs [] = [[]]"
| "splitWs (c # cs) =
     (if isWhiteSpace c then [] # splitWs (dropWhile isWhiteSpace cs)
      else (c # hd (splitWs cs)) # tl (splitWs cs))"
  by pat_completeness auto
termination
  by (relation "measure length") (auto simp: length_dropWhile_le less_Suc_eq_le)

text \<open>\<open>xs.join(sep)\<close>.\<close>

fun joinWith :: "string \<Rightarrow> string list \<Rightarrow> string" where
  "joinWith sep [] = []"
| "joinWith sep [x] = x"
| "joinWith sep (x # y # ys) = x @ sep @ joinWith sep (y # ys)"

text \<open>
  \<open>s.toUpperCase()\<close> for code units up to U+00FF: the ASCII and the Latin-1 small
  letters move to their capitals, the sharp s becomes \<open>SS\<close>. The capitals of the micro
  sign (U+00B5) and of the y with diaeresis (U+00FF) lie beyond U+00FF; the model keeps
  these two code units as they are. Neither they nor their capitals are keys of a Morse
  table, so nothing below depends on it.
\<close>

definition smallLetters :: string where
  "smallLetters =
     ''abcdefghijklmnopqrstuvwxyz'' @
       [CHR 0xE0, CHR 0xE1, CHR 0xE2, CHR 0xE3, CHR 0xE4, CHR 0xE5, CHR 0xE6, CHR 0xE7,
        CHR 0xE8, CHR 0xE9, CHR 0xEA, CHR 0xEB, CHR 0xEC, CHR 0xED, CHR 0xEE, CHR 0xEF,
        CHR 0xF0, CHR 0xF1, CHR 0xF2, CHR 0xF3, CHR 0xF4, CHR 0xF5, CHR 0xF6, CHR 0xF8,
        CHR 0xF9, CHR 0xFA, CHR 0xFB, CHR 0xFC, CHR 0xFD, CHR 0xFE]"

definition capitalLetters :: string where
  "capitalLetters =
     ''ABCDEFGHIJKLMNOPQRSTUVWXYZ'' @
       [CHR 0xC0, CHR 0xC1, CHR 0xC2, CHR 0xC3, CHR 0xC4, CHR 0xC5, CHR 0xC6, CHR 0xC7,
        CHR 0xC8, CHR 0xC9, CHR 0xCA, CHR 0xCB, CHR 0xCC, CHR 0xCD, CHR 0xCE, CHR 0xCF,
        CHR 0xD0, CHR 0xD1, CHR 0xD2, CHR 0xD3, CHR 0xD4, CHR 0xD5, CHR 0xD6, CHR 0xD8,
        CHR 0xD9, CHR 0xDA, CHR 0xDB, CHR 0xDC, CHR 0xDD, CHR 0xDE]"

definition upperUnit :: "char \<Rightarrow> string" where
  "upperUnit c =
     (if c = CHR 0xDF then ''SS''
      else (case map_of (zip smallLetters capitalLetters) c of
              Some u \<Rightarrow> [u]
            | None \<Rightarrow> [c]))"

definition toUpperCase :: "string \<Rightarrow> string" where
  "toUpperCase s = concat (map upperUnit s)"

text \<open>
  The functions of \<open>morse.js\<close> test their argument with \<open>!morse || typeof morse !==
  'string'\<close>, so the model gives them a JavaScript value: a string, or one of the values
  that are no string (\<open>JOther\<close> stands for every number, object or function).
\<close>

datatype jsval = JStr string | JNull | JUndefined | JBool bool | JOther

text \<open>
  The Morse tables are object literals, and \<open>table[key]\<close> is a property read: the
  table's own entry when it has one, otherwise the property that every object inherits
  from \<open>Object.prototype\<close> under that name, otherwise \<open>undefined\<close>. The inherited
  values are functions (and the prototype object itself for \<open>__proto__\<close>); joined into
  a string they print as below in the Chromium browsers, the only ones with Web Serial
  and Web Bluetooth. None of the inherited names is made of dots, dashes, slashes or
  white space, or is a single character.
\<close>

definition nativeFunction :: "string \<Rightarrow> string" where
  "nativeFunction name = ''function '' @ name @ ''() { [native code] }''"

definition objectPrototype :: "(string \<times> string) list" where
  "objectPrototype =
    [(''constructor'', nativeFunction ''Object''),
     (''__defineGetter__'', nativeFunction ''__defineGetter__''),
     (''__defineSetter__'', nativeFunction ''__defineSetter__''),
     (''hasOwnProperty'', nativeFunction ''hasOwnProperty''),
     (''__lookupGetter__'', nativeFunction ''__lookupGetter__''),
     (''__lookupSetter__'', nativeFunction ''__lookupSetter__''),
     (''isPrototypeOf'', nativeFunction ''isPrototypeOf''),
     (''propertyIsEnumerable'', nativeFunction ''propertyIsEnumerable''),
     (''toString'', nativeFunction ''toString''),
     (''valueOf'', nativeFunction ''valueOf''),
     (''__proto__'', ''[object Object]''),
     (''toLocaleString'', nativeFunction ''toLocaleString'')]"

definition jsGet :: "(string \<times> string) list \<Rightarrow> string \<Rightarrow> string option" where
  "jsGet obj key =
     (case map_of obj key of Some v \<Rightarrow> Some v | None \<Rightarrow> map_of objectPrototype key)"

text \<open>\<open>x || d\<close> for a property read \<open>x\<close>: \<open>undefined\<close> and the empty string are falsy.\<close>

definition orElse :: "string option \<Rightarrow> string \<Rightarrow> string" where
  "orElse x d = (case x of None \<Rightarrow> d | Some v \<Rightarrow> if v = [] then d else v)"

section \<open>The Morse codec (web app v4.2, morse.js)\<close>

definition MORSE_CODE :: "(string \<times> string) list" where
  "MORSE_CODE =
    [(''.-'', ''A''), (''-...'', ''B''), (''-.-.'', ''C''), (''-..'', ''D''), (''.'', ''E''),
     (''..-.'', ''F''), (''--.'', ''G''), (''....'', ''H''), (''..'', ''I''), (''.---'', ''J''),
     (''-.-'', ''K''), (''.-..'', ''L''), (''--'', ''M''), (''-.'', ''N''), (''---'', ''O''),
     (''.--.'', ''P''), (''--.-'', ''Q''), (''.-.'', ''R''), (''...'', ''S''), (''-'', ''T''),
     (''..-'', ''U''), (''...-'', ''V''), (''.--'', ''W''), (''-..-'', ''X''), (''-.--'', ''Y''),
     (''--..'', ''Z''),
     (''-----'', ''0''), (''.----'', ''1''), (''..---'', ''2''), (''...--'', ''3''),
     (''....-'', ''4''), (''.....'', ''5''), (''-....'', ''6''), (''--...'', ''7''),
     (''---..'', ''8''), (''----.'', ''9''),
     (''/'', '' ''), (''.-.-.-'', ''.''), (''--..--'', '',''), (''..--..'', ''?''),
     (''.----.'', [CHR 0x27]), (''-.-.--'', ''!''), (''-..-.'', ''/''), (''-.--.'', ''(''),
     (''-.--.-'', '')''), (''.-...'', ''&''), (''---...'', '':''), (''-.-.-.'', '';''),
     (''-...-'', ''=''), (''.-.-.'', ''+''), (''-....-'', ''-''), (''..--.-'', ''_''),
     (''.-..-.'', [CHR 0x22]), (''...-..-'', ''$''), (''.--.-.'', ''@'')]"

text \<open>
  \<open>CHAR_TO_MORSE\<close> starts empty and receives \<open>CHAR_TO_MORSE[MORSE_CODE[morse]] = morse\<close>
  for every key of \<open>MORSE_CODE\<close> in order; a later assignment to the same character
  would replace the earlier one.
\<close>

definition CHAR_TO_MORSE :: "(string \<times> string) list" where
  "CHAR_TO_MORSE = foldl (\<lambda>obj (morse, ch). AList.update ch morse obj) [] MORSE_CODE"

text \<open>The function mapped over the letters in \<open>decodeMorse\<close>.\<close>

definition decodeLetter :: "string \<Rightarrow> string" where
  "decodeLetter letter =
     (if letter = ''/'' then '' '' else orElse (jsGet MORSE_CODE letter) ''?'')"

definition decodeMorse :: "jsval \<Rightarrow> string" where
  "decodeMorse v =
     (case v of
        JStr morse \<Rightarrow>
          if morse = [] then []
          else if morse = ''/'' \<or> morse = '' / '' \<or> trim morse = ''/'' then '' ''
          else
            (let cleanMorse = replaceWs (trim morse);
                 letters = filter (\<lambda>letter. 0 < length letter) (jsSplit (CHR 0x20) cleanMorse)
             in concat (map decodeLetter letters))
      | _ \<Rightarrow> [])"

text \<open>The function mapped over the characters in \<open>encodeToMorse\<close>.\<close>

definition encodeChar :: "char \<Rightarrow> string" where
  "encodeChar c = (if c = CHR 0x20 then ''/'' else orElse (jsGet CHAR_TO_MORSE [c]) [])"

definition encodeToMorse :: "jsval \<Rightarrow> string" where
  "encodeToMorse v =
     (case v of
        JStr text \<Rightarrow>
          if text = [] then []
          else joinWith '' ''
                 (filter (\<lambda>morse. 0 < length morse) (map encodeChar (toUpperCase text)))
      | _ \<Rightarrow> [])"

text \<open>\<open>/^[.\-\s/]+$/\<close>: the characters of the class, and the test of the whole string.\<close>

definition isMorseChar :: "char \<Rightarrow> bool" where
  "isMorseChar c \<longleftrightarrow> c = CHR ''.'' \<or> c = CHR ''-'' \<or> isWhiteSpace c \<or> c = CHR ''/''"

definition isValidMorse :: "jsval \<Rightarrow> bool" where
  "isValidMorse v =
     (case v of
        JStr morse \<Rightarrow> if morse = [] then False else list_all isMorseChar morse
      | _ \<Rightarrow> False)"

section \<open>The communication page (web app v4.3, communication.js)\<close>

subsection \<open>Its own Morse utilities\<close>

text \<open>
  \<open>communication.js\<close> declares \<open>isValidMorse\<close> and \<open>decodeMorse\<close> again at its end
  (``fallback if morse.js not loaded''), over a table of its own, \<open>MORSE_CODE_MAP\<close>,
  which has the letters and the digits only. These declarations are the ones in force
  in the functions of this file. Its \<open>isValidMorse\<close> is the one of \<open>morse.js\<close> word
  for word; its \<open>decodeMorse\<close> differs in the table.
\<close>

definition MORSE_CODE_MAP :: "(string \<times> string) list" where
  "MORSE_CODE_MAP =
    [(''.-'', ''A''), (''-...'', ''B''), (''-.-.'', ''C''), (''-..'', ''D''), (''.'', ''E''),
     (''..-.'', ''F''), (''--.'', ''G''), (''....'', ''H''), (''..'', ''I''), (''.---'', ''J''),
     (''-.-'', ''K''), (''.-..'', ''L''), (''--'', ''M''), (''-.'', ''N''), (''---'', ''O''),
     (''.--.'', ''P''), (''--.-'', ''Q''), (''.-.'', ''R''), (''...'', ''S''), (''-'', ''T''),
     (''..-'', ''U''), (''...-'', ''V''), (''.--'', ''W''), (''-..-'', ''X''), (''-.--'', ''Y''),
     (''--..'', ''Z''), (''-----'', ''0''), (''.----'', ''1''), (''..---'', ''2''),
     (''...--'', ''3''), (''....-'', ''4''), (''.....'', ''5''), (''-....'', ''6''),
     (''--...'', ''7''), (''---..'', ''8''), (''----.'', ''9'')]"

definition decodeLetter_fallback :: "string \<Rightarrow> string" where
  "decodeLetter_fallback letter =
     (if letter = ''/'' then '' '' else orElse (jsGet MORSE_CODE_MAP letter) ''?'')"

definition decodeMorse_fallback :: "jsval \<Rightarrow> string" where
  "decodeMorse_fallback v =
     (case v of
        JStr morse \<Rightarrow>
          if morse = [] then []
          else if morse = ''/'' \<or> morse = '' / '' \<or> trim morse = ''/'' then '' ''
          else
            (let cleanMorse = replaceWs (trim morse);
                 letters = filter (\<lambda>letter. 0 < length letter) (jsSplit (CHR 0x20) cleanMorse)
             in concat (map decodeLetter_fallback letters))
      | _ \<Rightarrow> [])"

subsection \<open>The session state\<close>

text \<open>
  The module variables \<open>currentBuilding\<close> and \<open>decodedText\<close>, the text of the manual
  entry box, and what \<open>saveCurrentMessage\<close> does to the world: \<open>savedMessages\<close> are the
  texts it handed to the storage, newest first, and \<open>autoSaveCalls\<close> counts the calls
  \<open>saveCurrentMessage(true)\<close> made by \<open>handleDataLine\<close>. The updates of the page
  (\<open>updateBuilding\<close>, \<open>updateDecoded\<close>, the live display, the toasts) read the two
  variables and write neither; they are left out.
\<close>

record session =
  currentBuilding :: string
  decodedText :: string
  manualBox :: string
  savedMessages :: "string list"
  autoSaveCalls :: nat

definition initialSession :: session where
  "initialSession =
     \<lparr>currentBuilding = [], decodedText = [], manualBox = [], savedMessages = [],
      autoSaveCalls = 0\<rparr>"

definition saveCurrentMessage :: "bool \<Rightarrow> session \<Rightarrow> session" where
  "saveCurrentMessage silent st =
     (let text = trim (decodedText st)
      in if text = [] then st else st\<lparr>savedMessages := text # savedMessages st\<rparr>)"

subsection \<open>The line interpreter\<close>

text \<open>
  The three places that decode a pattern and append the result:
  \<open>const decoded = decodeMorse(p); if (decoded && decoded !== '?') decodedText += decoded\<close>.
\<close>

definition appendDecoded :: "string \<Rightarrow> string \<Rightarrow> string" where
  "appendDecoded text pattern =
     (let decoded = decodeMorse_fallback (JStr pattern)
      in if decoded \<noteq> [] \<and> decoded \<noteq> ''?'' then text @ decoded else text)"

text \<open>\<open>line.match(/^[.\-]+$/)\<close> and \<open>line.startsWith(p)\<close>.\<close>

definition matchesDotDash :: "string \<Rightarrow> bool" where
  "matchesDotDash line \<longleftrightarrow>
     (if line = [] then False else list_all (\<lambda>c. c = CHR ''.'' \<or> c = CHR ''-'') line)"

definition startsWith :: "string \<Rightarrow> string \<Rightarrow> bool" where
  "startsWith line p \<longleftrightarrow> take (length p) line = p"

text \<open>
  \<open>line.split(':')[1]?.trim()\<close>: the second piece of the split at the colons, trimmed;
  \<open>undefined\<close> when the split has one piece only.
\<close>

definition morseData :: "string \<Rightarrow> string option" where
  "morseData line =
     (case jsSplit (CHR '':'') line of
        _ # piece # _ \<Rightarrow> Some (trim piece)
      | _ \<Rightarrow> None)"

text \<open>
  \<open>line.match(/([.\-\s/]+)/)\<close>: the search stops at the first character of the class
  and the group takes the characters of the class that follow it; \<open>null\<close> when the line
  has no such character.
\<close>

definition morseMatch :: "string \<Rightarrow> string option" where
  "morseMatch line =
     (let rest = dropWhile (\<lambda>c. \<not> isMorseChar c) line
      in if rest = [] then None else Some (takeWhile isMorseChar rest))"

definition handleDataLine :: "bool \<Rightarrow> session \<Rightarrow> string \<Rightarrow> session" where
  "handleDataLine autoSave st line =
     (if line = [] then st
      else
        let st1 =
          (if line = ''/'' \<or> line = ''SPACE'' \<or> line = ''WORD_END'' then
             st\<lparr>decodedText :=
                  (if currentBuilding st \<noteq> []
                   then appendDecoded (decodedText st) (currentBuilding st)
                   else decodedText st) @ '' '',
                currentBuilding := []\<rparr>
           else if line = ''|'' \<or> line = ''LETTER'' \<or> line = ''LETTER_END'' then
             st\<lparr>decodedText :=
                  (if currentBuilding st \<noteq> []
                   then appendDecoded (decodedText st) (currentBuilding st)
                   else decodedText st),
                currentBuilding := []\<rparr>
           else if isValidMorse (JStr line) then
             st\<lparr>decodedText := appendDecoded (decodedText st) line,
                currentBuilding := line\<rparr>
           else if matchesDotDash line then
             st\<lparr>currentBuilding := line\<rparr>
           else if startsWith line ''BLINK:'' \<or> startsWith line ''MORSE:'' then
             (case morseData line of
                Some m \<Rightarrow> if m \<noteq> [] then st\<lparr>currentBuilding := m\<rparr> else st
              | None \<Rightarrow> st)
           else if CHR ''.'' \<in> set line \<or> CHR ''-'' \<in> set line then
             (case morseMatch line of
                Some run \<Rightarrow> st\<lparr>currentBuilding := trim run\<rparr>
              | None \<Rightarrow> st)
           else st)
        in
          if autoSave \<and> 0 < length (decodedText st1) then
            (if length (decodedText st1) mod 10 = 0
             then saveCurrentMessage True (st1\<lparr>autoSaveCalls := Suc (autoSaveCalls st1)\<rparr>)
             else st1)
          else st1)"

text \<open>The lines of a transport, handed to the interpreter one after the other.\<close>

definition feedLines :: "bool \<Rightarrow> session \<Rightarrow> string list \<Rightarrow> session" where
  "feedLines autoSave st ls = foldl (handleDataLine autoSave) st ls"

subsection \<open>Manual entry\<close>

definition addManualInput :: "session \<Rightarrow> session" where
  "addManualInput st =
     (let manualText = trim (manualBox st)
      in if manualText = [] then st
         else
           let tokens = splitWs manualText;
               addedText =
                 foldl (\<lambda>added token.
                          if token = ''/'' \<or> token = ''SPACE'' then added @ '' ''
                          else if isValidMorse (JStr token)
                               then added @ decodeMorse_fallback (JStr token)
                               else added)
                   [] tokens
           in if addedText \<noteq> []
              then st\<lparr>decodedText := decodedText st @ addedText, manualBox := []\<rparr>
              else st)"

subsection \<open>The two transports\<close>

text \<open>
  \<open>LineBreakTransformer\<close>: its state is the buffer \<open>chunks\<close>; \<open>transform\<close> returns
  the new buffer and the lines it enqueued, \<open>flush\<close> the lines it enqueued.
\<close>

definition transform :: "string \<Rightarrow> string \<Rightarrow> string \<times> string list" where
  "transform chunks chunk =
     (let ls = jsSplit (CHR 0x0A) (chunks @ chunk)
      in (last ls, filter (\<lambda>trimmed. trimmed \<noteq> []) (map trim (butlast ls))))"

definition flush :: "string \<Rightarrow> string list" where
  "flush chunks = (let trimmed = trim chunks in if trimmed \<noteq> [] then [trimmed] else [])"

text \<open>
  The stream behind the reader of \<open>readSerialData\<close>: every chunk of text goes through
  \<open>transform\<close>, and \<open>flush\<close> runs when the port's stream ends.
\<close>

fun pipeThrough :: "string \<Rightarrow> string list \<Rightarrow> string list" where
  "pipeThrough chunks [] = flush chunks"
| "pipeThrough chunks (chunk # rest) =
     (case transform chunks chunk of
        (chunks', enqueued) \<Rightarrow> enqueued @ pipeThrough chunks' rest)"

text \<open>
  The lines that \<open>readSerialData\<close> hands to \<open>handleDataLine\<close> while \<open>keepReading\<close>
  stays set: \<open>if (value) handleDataLine(value.trim())\<close>.
\<close>

definition serialLines :: "string list \<Rightarrow> string list" where
  "serialLines cs = map trim (filter (\<lambda>v. v \<noteq> []) (pipeThrough [] cs))"

definition readSerialData :: "bool \<Rightarrow> session \<Rightarrow> string list \<Rightarrow> session" where
  "readSerialData autoSave st cs = feedLines autoSave st (serialLines cs)"

text \<open>
  The lines that \<open>handleBluetoothData\<close> hands to \<open>handleDataLine\<close> for one
  notification, whose decoded text is \<open>data\<close>.
\<close>

definition bluetoothLines :: "string \<Rightarrow> string list" where
  "bluetoothLines data =
     filter (\<lambda>trimmedLine. trimmedLine \<noteq> []) (map trim (jsSplit (CHR 0x0A) data))"

definition handleBluetoothData :: "bool \<Rightarrow> session \<Rightarrow> string \<Rightarrow> session" where
  "handleBluetoothData autoSave st data = feedLines autoSave st (bluetoothLines data)"

definition bluetoothSession :: "bool \<Rightarrow> session \<Rightarrow> string list \<Rightarrow> session" where
  "bluetoothSession autoSave st cs = foldl (handleBluetoothData autoSave) st cs"

section \<open>Notions of the specification\<close>

text \<open>
  The tokens of a pattern: its maximal pieces without white space, from left to right
  (\<open>cur\<close> is the piece being read).
\<close>

fun tokensFrom :: "string \<Rightarrow> string \<Rightarrow> string list" where
  "tokensFrom cur [] = (if cur = [] then [] else [cur])"
| "tokensFrom cur (c # cs) =
     (if isWhiteSpace c then (if cur = [] then tokensFrom [] cs else cur # tokensFrom [] cs)
      else tokensFrom (cur @ [c]) cs)"

text \<open>
  One token through a table, as the specification words it: the slash is the word gap,
  a token that is a key of the table gives the table's character, and a token that is
  absent from the table gives a question mark.
\<close>

definition decodeToken :: "(string \<times> string) list \<Rightarrow> string \<Rightarrow> string" where
  "decodeToken table t =
     (if t = ''/'' then '' ''
      else (case map_of table t of Some ch \<Rightarrow> ch | None \<Rightarrow> ''?''))"

text \<open>
  The maximal runs of characters of the class \<open>[.\-\s/]\<close> in a line, from left to
  right, and the longest of them (the first one among several of that length).
\<close>

fun runsFrom :: "string \<Rightarrow> string \<Rightarrow> string list" where
  "runsFrom cur [] = (if cur = [] then [] else [cur])"
| "runsFrom cur (c # cs) =
     (if isMorseChar c then runsFrom (cur @ [c]) cs
      else (if cur = [] then runsFrom [] cs else cur # runsFrom [] cs))"

definition longestRun :: "string \<Rightarrow> string" where
  "longestRun line =
     foldl (\<lambda>best run. if length best < length run then run else best) [] (runsFrom [] line)"

text \<open>What stands after the first colon of a line (nothing when it has no colon).\<close>

definition afterFirstColon :: "string \<Rightarrow> string" where
  "afterFirstColon line = drop 1 (dropWhile (\<lambda>c. c \<noteq> CHR '':'') line)"

text \<open>The classification of a line, in the order of the branches of \<open>handleDataLine\<close>.\<close>

definition isWordBreak :: "string \<Rightarrow> bool" where
  "isWordBreak line \<longleftrightarrow> line = ''/'' \<or> line = ''SPACE'' \<or> line = ''WORD_END''"

definition isLetterBreak :: "string \<Rightarrow> bool" where
  "isLetterBreak line \<longleftrightarrow> line = ''|'' \<or> line = ''LETTER'' \<or> line = ''LETTER_END''"

definition isTagged :: "string \<Rightarrow> bool" where
  "isTagged line \<longleftrightarrow> startsWith line ''BLINK:'' \<or> startsWith line ''MORSE:''"

definition isRecognized :: "string \<Rightarrow> bool" where
  "isRecognized line \<longleftrightarrow>
     isWordBreak line \<or> isLetterBreak line \<or> isValidMorse (JStr line) \<or>
     matchesDotDash line \<or> isTagged line"

section \<open>Strings: splitting, trimming and tokens\<close>

lemma jsSplit_not_Nil: "jsSplit sep s \<noteq> []"
  by (cases s) auto

lemma space_isWhiteSpace: "isWhiteSpace (CHR 0x20)"
  by (simp add: isWhiteSpace_def)

lemma tokensFrom_dropWhile: "tokensFrom [] (dropWhile isWhiteSpace s) = tokensFrom [] s"
  by (induction s) auto

text \<open>
  Splitting the collapsed string at the spaces and dropping the empty pieces reads the
  tokens; \<open>cur\<close> is what stands before the first piece.
\<close>

lemma split_replaceWs_tokens:
  "filter (\<lambda>l. l \<noteq> [])
     ((cur @ hd (jsSplit (CHR 0x20) (replaceWs s))) # tl (jsSplit (CHR 0x20) (replaceWs s)))
   = tokensFrom cur s"
proof (induction s arbitrary: cur rule: replaceWs.induct)
  case 1
  show ?case by simp
next
  case (2 c cs)
  show ?case
  proof (cases "isWhiteSpace c")
    case True
    let ?X = "jsSplit (CHR 0x20) (replaceWs (dropWhile isWhiteSpace cs))"
    have "filter (\<lambda>l. l \<noteq> []) ?X = filter (\<lambda>l. l \<noteq> []) (([] @ hd ?X) # tl ?X)"
      using jsSplit_not_Nil [of "CHR 0x20" "replaceWs (dropWhile isWhiteSpace cs)"] by simp
    also have "\<dots> = tokensFrom [] (dropWhile isWhiteSpace cs)"
      using "2.IH"(1) [OF True] .
    finally have "filter (\<lambda>l. l \<noteq> []) ?X = tokensFrom [] cs"
      by (simp add: tokensFrom_dropWhile)
    with True show ?thesis by simp
  next
    case False
    then have "c \<noteq> CHR 0x20" using space_isWhiteSpace by auto
    with False "2.IH"(2) [OF False, of "cur @ [c]"] show ?thesis by simp
  qed
qed

lemma tokensFrom_ws_only:
  "list_all isWhiteSpace w \<Longrightarrow> tokensFrom cur w = (if cur = [] then [] else [cur])"
  by (induction w arbitrary: cur) auto

lemma tokensFrom_append_ws:
  "list_all isWhiteSpace w \<Longrightarrow> tokensFrom cur (s @ w) = tokensFrom cur s"
proof (induction s arbitrary: cur)
  case Nil
  then show ?case by (simp add: tokensFrom_ws_only)
next
  case (Cons c cs)
  then show ?case by simp
qed

lemma rev_dropWhile_rev_append:
  "rev (dropWhile P (rev s)) @ rev (takeWhile P (rev s)) = s"
proof -
  have "rev (takeWhile P (rev s) @ dropWhile P (rev s)) = s" by simp
  then show ?thesis by (simp only: rev_append)
qed

lemma tokensFrom_trim: "tokensFrom [] (trim s) = tokensFrom [] s"
proof -
  let ?t = "dropWhile isWhiteSpace s"
  have ws: "list_all isWhiteSpace (rev (takeWhile isWhiteSpace (rev ?t)))"
    by (simp add: list_all_iff) (meson set_takeWhileD)
  have "tokensFrom [] (trim s) = tokensFrom [] (trim s @ rev (takeWhile isWhiteSpace (rev ?t)))"
    using tokensFrom_append_ws [OF ws] by simp
  also have "\<dots> = tokensFrom [] ?t"
    unfolding trim_def by (simp only: rev_dropWhile_rev_append)
  finally show ?thesis by (simp add: tokensFrom_dropWhile)
qed

lemma letters_tokens:
  "filter (\<lambda>letter. letter \<noteq> []) (jsSplit (CHR 0x20) (replaceWs (trim s)))
   = tokensFrom [] s"
proof -
  let ?X = "jsSplit (CHR 0x20) (replaceWs (trim s))"
  have "filter (\<lambda>l. l \<noteq> []) ?X = filter (\<lambda>l. l \<noteq> []) (([] @ hd ?X) # tl ?X)"
    using jsSplit_not_Nil [of "CHR 0x20" "replaceWs (trim s)"] by simp
  also have "\<dots> = tokensFrom [] (trim s)" by (rule split_replaceWs_tokens)
  finally show ?thesis by (simp add: tokensFrom_trim)
qed

lemma trim_slash: "trim ''/'' = ''/''" "trim '' / '' = ''/''"
  by (simp_all add: trim_def isWhiteSpace_def)

section \<open>The decoders\<close>

lemma MORSE_CODE_values: "map_of MORSE_CODE t = Some v \<Longrightarrow> v \<noteq> []"
  by (drule map_of_SomeD) (auto simp: MORSE_CODE_def)

text \<open>
  Both decoders read the tokens between the white space and join what the function
  mapped over the letters returns for each.
\<close>

lemma decodeMorse_tokens:
  "decodeMorse (JStr s) =
     (if s = [] then []
      else if trim s = ''/'' then '' ''
      else concat (map decodeLetter (tokensFrom [] s)))"
proof -
  have "s = ''/'' \<or> s = '' / '' \<or> trim s = ''/'' \<longleftrightarrow> trim s = ''/''"
    using trim_slash by auto
  then show ?thesis
    by (simp add: decodeMorse_def letters_tokens)
qed

lemma decodeMorse_fallback_tokens:
  "decodeMorse_fallback (JStr s) =
     (if s = [] then []
      else if trim s = ''/'' then '' ''
      else concat (map decodeLetter_fallback (tokensFrom [] s)))"
proof -
  have "s = ''/'' \<or> s = '' / '' \<or> trim s = ''/'' \<longleftrightarrow> trim s = ''/''"
    using trim_slash by auto
  then show ?thesis
    by (simp add: decodeMorse_fallback_def letters_tokens)
qed

lemma decodeMorse_corner_cases:
  "decodeMorse (JStr []) = [] \<and> decodeMorse JNull = [] \<and> decodeMorse JUndefined = [] \<and>
   decodeMorse (JBool b) = [] \<and> decodeMorse JOther = [] \<and>
   decodeMorse (JStr ''/'') = '' '' \<and> decodeMorse (JStr '' / '') = '' ''"
  by (simp add: decodeMorse_def)

text \<open>
  A token that is not the name of an inherited property goes through the table as the
  specification says, and so does a string made of such tokens.
\<close>

lemma decodeLetter_own_key:
  "map_of objectPrototype t = None \<Longrightarrow> decodeLetter t = decodeToken MORSE_CODE t"
  by (auto simp: decodeLetter_def decodeToken_def orElse_def jsGet_def
      split: option.splits dest: MORSE_CODE_values)

lemma decodeMorse_plain_tokens:
  assumes "list_all (\<lambda>t. map_of objectPrototype t = None) (tokensFrom [] s)"
  shows "decodeMorse (JStr s) =
     (if s = [] then []
      else if trim s = ''/'' then '' ''
      else concat (map (decodeToken MORSE_CODE) (tokensFrom [] s)))"
proof -
  have eq: "map decodeLetter (tokensFrom [] s) = map (decodeToken MORSE_CODE) (tokensFrom [] s)"
    using assms by (auto simp: list_all_iff decodeLetter_own_key)
  show ?thesis
    unfolding decodeMorse_tokens eq by (rule refl)
qed

text \<open>
  Claim C4 says that \<open>decodeMorse\<close> maps every token that is absent from the table to
  a question mark. The code reads the table with \<open>MORSE_CODE[letter] || '?'\<close>, and that
  property read also answers for the names every object inherits. The token
  \<open>constructor\<close> is no key of the table, so the specification gives \<open>"?"\<close> for it;
  \<open>decodeMorse\<close> returns the text of the function \<open>Object\<close>. For \<open>__proto__\<close> it
  returns \<open>"[object Object]"\<close>.
\<close>

theorem decodeMorse_inherited_name:
  "map_of MORSE_CODE ''constructor'' = None \<and>
   decodeToken MORSE_CODE ''constructor'' = ''?'' \<and>
   decodeMorse (JStr ''constructor'') = ''function Object() { [native code] }'' \<and>
   decodeMorse (JStr ''constructor'') \<noteq> ''?'' \<and>
   map_of MORSE_CODE ''__proto__'' = None \<and>
   decodeToken MORSE_CODE ''__proto__'' = ''?'' \<and>
   decodeMorse (JStr ''__proto__'') = ''[object Object]''"
proof -
  have own: "map_of MORSE_CODE ''constructor'' = None" "map_of MORSE_CODE ''__proto__'' = None"
    by (simp_all add: MORSE_CODE_def)
  have inherited:
    "map_of objectPrototype ''constructor'' = Some ''function Object() { [native code] }''"
    "map_of objectPrototype ''__proto__'' = Some ''[object Object]''"
    by (simp_all add: objectPrototype_def nativeFunction_def)
  have toks: "tokensFrom [] ''constructor'' = [''constructor'']"
    "tokensFrom [] ''__proto__'' = [''__proto__'']"
    by (simp_all add: isWhiteSpace_def)
  have trims: "trim ''constructor'' = ''constructor''" "trim ''__proto__'' = ''__proto__''"
    by (simp_all add: trim_def isWhiteSpace_def)
  have "decodeLetter ''constructor'' = ''function Object() { [native code] }''"
    "decodeLetter ''__proto__'' = ''[object Object]''"
    by (simp_all add: decodeLetter_def jsGet_def orElse_def own inherited)
  then have
    "decodeMorse (JStr ''constructor'') = ''function Object() { [native code] }''"
    "decodeMorse (JStr ''__proto__'') = ''[object Object]''"
    unfolding decodeMorse_tokens toks trims by simp_all
  then show ?thesis
    by (simp add: own decodeToken_def)
qed

section \<open>Encoding and the round trip\<close>

lemma distinct_keys: "distinct (map fst MORSE_CODE)"
  by (simp add: MORSE_CODE_def)

lemma distinct_values: "distinct (map snd MORSE_CODE)"
  by (simp add: MORSE_CODE_def)

lemma keys_plain:
  "list_all (\<lambda>(m, c). m \<noteq> [] \<and> list_all (\<lambda>x. \<not> isWhiteSpace x) m) MORSE_CODE"
  by (simp add: MORSE_CODE_def isWhiteSpace_def)

lemma values_plain:
  "list_all (\<lambda>(m, c). case c of [] \<Rightarrow> False | ch # r \<Rightarrow> r = [] \<and> (of_char ch :: nat) < 97)
     MORSE_CODE"
  by (simp add: MORSE_CODE_def)

lemma small_codes: "list_all (\<lambda>c. (97::nat) \<le> of_char c) smallLetters"
  by (simp add: smallLetters_def)

lemma slash_entry: "(''/'', '' '') \<in> set MORSE_CODE"
  by (simp add: MORSE_CODE_def)

lemma upperUnit_below_a:
  assumes "(of_char c :: nat) < 97"
  shows "upperUnit c = [c]"
proof -
  have "c \<notin> set smallLetters"
    using small_codes assms by (auto simp: list_all_iff)
  then have "map_of (zip smallLetters capitalLetters) c = None"
    by (metis map_of_eq_None_iff set_zip_leftD prod.collapse imageE)
  moreover have "c \<noteq> CHR 0xDF" using assms by auto
  ultimately show ?thesis by (simp add: upperUnit_def)
qed

lemma dropWhile_none: "list_all (\<lambda>x. \<not> P x) xs \<Longrightarrow> dropWhile P xs = xs"
  by (cases xs) auto

lemma trim_no_ws: "list_all (\<lambda>x. \<not> isWhiteSpace x) s \<Longrightarrow> trim s = s"
  by (simp add: trim_def dropWhile_none)

lemma tokensFrom_no_ws:
  "list_all (\<lambda>x. \<not> isWhiteSpace x) s \<Longrightarrow>
   tokensFrom cur s = (if cur @ s = [] then [] else [cur @ s])"
  by (induction s arbitrary: cur) auto

lemma decodeMorse_single_token:
  assumes "m \<noteq> []" "list_all (\<lambda>x. \<not> isWhiteSpace x) m"
  shows "decodeMorse (JStr m) = decodeLetter m"
  using assms
  by (simp add: decodeMorse_tokens trim_no_ws tokensFrom_no_ws decodeLetter_def)

lemma assign_other:
  "c \<notin> snd ` set xs \<Longrightarrow>
   map_of (foldl (\<lambda>obj (morse, ch). AList.update ch morse obj) acc xs) c = map_of acc c"
  by (induction xs arbitrary: acc) (auto simp: AList.update_conv')

lemma assign_entry:
  "distinct (map snd xs) \<Longrightarrow> (m, c) \<in> set xs \<Longrightarrow>
   map_of (foldl (\<lambda>obj (morse, ch). AList.update ch morse obj) acc xs) c = Some m"
proof (induction xs arbitrary: acc)
  case Nil
  then show ?case by simp
next
  case (Cons x xs)
  show ?case
  proof (cases "x = (m, c)")
    case True
    with Cons.prems have "c \<notin> snd ` set xs" by force
    with True show ?thesis by (simp add: assign_other AList.update_conv')
  next
    case False
    with Cons show ?thesis by (cases x) auto
  qed
qed

lemma CHAR_TO_MORSE_entry:
  "(m, c) \<in> set MORSE_CODE \<Longrightarrow> map_of CHAR_TO_MORSE c = Some m"
  unfolding CHAR_TO_MORSE_def by (rule assign_entry [OF distinct_values])

lemma MORSE_CODE_entry:
  "(m, c) \<in> set MORSE_CODE \<Longrightarrow> map_of MORSE_CODE m = Some c"
  by (rule map_of_is_SomeI [OF distinct_keys])

lemma encodeToMorse_unit:
  "upperUnit ch = [ch] \<Longrightarrow> encodeToMorse (JStr [ch]) = encodeChar ch"
  by (simp add: encodeToMorse_def toUpperCase_def)

lemma table_roundtrip:
  assumes "c \<in> set (map snd MORSE_CODE)"
  shows "decodeMorse (JStr (encodeToMorse (JStr c))) = c"
proof -
  from assms obtain m where mc: "(m, c) \<in> set MORSE_CODE" by auto
  from mc keys_plain have m: "m \<noteq> []" "list_all (\<lambda>x. \<not> isWhiteSpace x) m"
    by (auto simp: list_all_iff)
  from mc values_plain obtain ch where c: "c = [ch]" and ch: "(of_char ch :: nat) < 97"
    by (auto simp: list_all_iff split: list.splits)
  have table: "map_of MORSE_CODE m = Some c" using mc by (rule MORSE_CODE_entry)
  have rev_table: "map_of CHAR_TO_MORSE c = Some m" using mc by (rule CHAR_TO_MORSE_entry)
  have slash: "m = ''/'' \<longleftrightarrow> c = '' ''"
    using table rev_table MORSE_CODE_entry [OF slash_entry] CHAR_TO_MORSE_entry [OF slash_entry]
    by auto
  have "encodeToMorse (JStr c) = encodeChar ch"
    unfolding c using ch by (intro encodeToMorse_unit upperUnit_below_a)
  also have "\<dots> = m"
    using rev_table slash m(1) by (auto simp: encodeChar_def jsGet_def orElse_def c)
  finally have enc: "encodeToMorse (JStr c) = m" .
  have "decodeMorse (JStr m) = decodeLetter m"
    using m by (rule decodeMorse_single_token)
  also have "\<dots> = c"
    using table slash by (auto simp: decodeLetter_def jsGet_def orElse_def c)
  finally show ?thesis using enc by simp
qed

lemma objectPrototype_unit: "map_of objectPrototype [c] = None"
  by (simp add: objectPrototype_def)

lemma assign_lookup:
  "map_of (foldl (\<lambda>obj (morse, ch). AList.update ch morse obj) acc xs) c = Some m \<Longrightarrow>
   (m, c) \<in> set xs \<or> map_of acc c = Some m"
proof (induction xs arbitrary: acc)
  case Nil
  then show ?case by simp
next
  case (Cons x xs)
  obtain m' c' where x: "x = (m', c')" by (cases x)
  from Cons.prems have
    "map_of (foldl (\<lambda>obj (morse, ch). AList.update ch morse obj) (AList.update c' m' acc) xs) c
      = Some m"
    by (simp add: x)
  from Cons.IH [OF this] show ?case
    by (auto simp: x AList.update_conv' split: if_splits)
qed

lemma keys_morse_chars:
  "list_all (\<lambda>(m, c). list_all (\<lambda>x. x = CHR ''.'' \<or> x = CHR ''-'' \<or> x = CHR ''/'') m) MORSE_CODE"
  by (simp add: MORSE_CODE_def)

lemma encodeChar_chars: "set (encodeChar c) \<subseteq> {CHR ''.'', CHR ''-'', CHR ''/''}"
proof (cases "map_of CHAR_TO_MORSE [c]")
  case None
  then show ?thesis
    by (simp add: encodeChar_def jsGet_def orElse_def objectPrototype_unit)
next
  case (Some m)
  then have "(m, [c]) \<in> set MORSE_CODE"
    unfolding CHAR_TO_MORSE_def by (auto dest: assign_lookup)
  with keys_morse_chars have "set m \<subseteq> {CHR ''.'', CHR ''-'', CHR ''/''}"
    by (auto simp: list_all_iff)
  with Some show ?thesis
    by (auto simp: encodeChar_def jsGet_def orElse_def)
qed

lemma set_joinWith: "set (joinWith sep xs) \<subseteq> set sep \<union> \<Union> (set ` set xs)"
  by (induction sep xs rule: joinWith.induct) auto

lemma encodeToMorse_chars:
  "set (encodeToMorse v) \<subseteq> {CHR ''.'', CHR ''-'', CHR ''/'', CHR 0x20}"
proof (cases v)
  case (JStr str)
  have "set (joinWith '' '' (filter (\<lambda>morse. morse \<noteq> []) (map encodeChar (toUpperCase str))))
        \<subseteq> set '' '' \<union> \<Union> (set ` set (filter (\<lambda>morse. morse \<noteq> []) (map encodeChar (toUpperCase str))))"
    by (rule set_joinWith)
  also have "\<dots> \<subseteq> {CHR ''.'', CHR ''-'', CHR ''/'', CHR 0x20}"
    using encodeChar_chars by auto
  finally show ?thesis by (simp add: encodeToMorse_def JStr)
qed (simp_all add: encodeToMorse_def)

lemma upperUnit_examples: "upperUnit (CHR ''s'') = ''S''" "upperUnit (CHR ''o'') = ''O''"
  by (simp_all add: upperUnit_def smallLetters_def capitalLetters_def)

lemma encodeChar_letters: "encodeChar (CHR ''S'') = ''...''" "encodeChar (CHR ''O'') = ''---''"
proof -
  have "(''...'', ''S'') \<in> set MORSE_CODE" "(''---'', ''O'') \<in> set MORSE_CODE"
    by (simp_all add: MORSE_CODE_def)
  then have "map_of CHAR_TO_MORSE ''S'' = Some ''...''" "map_of CHAR_TO_MORSE ''O'' = Some ''---''"
    by (simp_all only: CHAR_TO_MORSE_entry)
  then show "encodeChar (CHR ''S'') = ''...''" "encodeChar (CHR ''O'') = ''---''"
    by (simp_all add: encodeChar_def jsGet_def orElse_def)
qed

lemma encodeChar_hash: "encodeChar (CHR ''#'') = []"
proof -
  have "''#'' \<notin> snd ` set MORSE_CODE" by (simp add: MORSE_CODE_def)
  then have "map_of CHAR_TO_MORSE ''#'' = None"
    unfolding CHAR_TO_MORSE_def by (simp add: assign_other)
  then show ?thesis
    by (simp add: encodeChar_def jsGet_def orElse_def objectPrototype_unit)
qed

lemma encodeChar_space: "encodeChar (CHR 0x20) = ''/''"
  by (simp add: encodeChar_def)

lemma encodeToMorse_examples:
  "encodeToMorse (JStr ''sos'') = ''... --- ...''" "encodeToMorse (JStr '' '') = ''/''"
  "encodeToMorse (JStr ''#'') = []" "encodeToMorse (JStr ''s#o'') = ''... ---''"
  by (simp_all add: encodeToMorse_def toUpperCase_def upperUnit_examples encodeChar_letters encodeChar_hash encodeChar_space
      upperUnit_below_a)

text \<open>
  Claim C5. For every character that is a value of the table \<open>MORSE_CODE\<close> (the
  letters, the digits, the space and the punctuation), decoding its encoding gives the
  character back. \<open>encodeToMorse\<close> uppercases its input, maps the space to the slash and
  drops a character that has no entry: its result is made of dots, dashes, slashes and
  the separating spaces only, so it never holds a question mark.
\<close>

theorem encode_decode_roundtrip:
  "(\<forall>c \<in> set (map snd MORSE_CODE). decodeMorse (JStr (encodeToMorse (JStr c))) = c) \<and>
   encodeToMorse (JStr ''sos'') = ''... --- ...'' \<and>
   encodeToMorse (JStr '' '') = ''/'' \<and>
   encodeToMorse (JStr ''#'') = [] \<and>
   encodeToMorse (JStr ''s#o'') = ''... ---'' \<and>
   CHR ''?'' \<notin> set (encodeToMorse v)"
proof -
  have "CHR ''?'' \<notin> set (encodeToMorse v)"
    using encodeToMorse_chars [of v] by auto
  then show ?thesis
    using table_roundtrip encodeToMorse_examples by blast
qed

theorem encode_decode_roundtrip_witness:
  "''A'' \<in> set (map snd MORSE_CODE) \<and>
   decodeMorse (JStr (encodeToMorse (JStr ''A''))) = ''A''"
proof -
  have "''A'' \<in> set (map snd MORSE_CODE)"
    by (simp add: MORSE_CODE_def)
  then show ?thesis
    using encode_decode_roundtrip by blast
qed

section \<open>The line interpreter\<close>

lemma saveCurrentMessage_fields:
  "decodedText (saveCurrentMessage silent st) = decodedText st"
  "currentBuilding (saveCurrentMessage silent st) = currentBuilding st"
  "manualBox (saveCurrentMessage silent st) = manualBox st"
  "autoSaveCalls (saveCurrentMessage silent st) = autoSaveCalls st"
  by (simp_all add: saveCurrentMessage_def Let_def)

lemma autoSave_tail:
  "decodedText
     (let st1 = X
      in if autoSave \<and> 0 < length (decodedText st1) then
           (if length (decodedText st1) mod 10 = 0
            then saveCurrentMessage True (st1\<lparr>autoSaveCalls := Suc (autoSaveCalls st1)\<rparr>)
            else st1)
         else st1) = decodedText X"
  "currentBuilding
     (let st1 = X
      in if autoSave \<and> 0 < length (decodedText st1) then
           (if length (decodedText st1) mod 10 = 0
            then saveCurrentMessage True (st1\<lparr>autoSaveCalls := Suc (autoSaveCalls st1)\<rparr>)
            else st1)
         else st1) = currentBuilding X"
  "autoSaveCalls
     (let st1 = X
      in if autoSave \<and> 0 < length (decodedText st1) then
           (if length (decodedText st1) mod 10 = 0
            then saveCurrentMessage True (st1\<lparr>autoSaveCalls := Suc (autoSaveCalls st1)\<rparr>)
            else st1)
         else st1) =
   autoSaveCalls X +
     (if autoSave \<and> 0 < length (decodedText X) \<and> length (decodedText X) mod 10 = 0
      then 1 else 0)"
  by (simp_all add: Let_def saveCurrentMessage_fields)

lemma handleDataLine_decodedText:
  "decodedText (handleDataLine autoSave st line) =
     (if line = [] then decodedText st
      else if isWordBreak line then
        (if currentBuilding st \<noteq> [] then appendDecoded (decodedText st) (currentBuilding st)
         else decodedText st) @ '' ''
      else if isLetterBreak line then
        (if currentBuilding st \<noteq> [] then appendDecoded (decodedText st) (currentBuilding st)
         else decodedText st)
      else if isValidMorse (JStr line) then appendDecoded (decodedText st) line
      else decodedText st)"
proof (cases "line = []")
  case True
  then show ?thesis by (simp add: handleDataLine_def)
next
  case False
  show ?thesis
    apply (simp only: handleDataLine_def False if_False autoSave_tail)
    apply (simp add: isWordBreak_def isLetterBreak_def split: option.splits)
    done
qed

lemma handleDataLine_currentBuilding:
  "currentBuilding (handleDataLine autoSave st line) =
     (if line = [] then currentBuilding st
      else if isWordBreak line \<or> isLetterBreak line then []
      else if isValidMorse (JStr line) \<or> matchesDotDash line then line
      else if isTagged line then
        (case morseData line of
           Some m \<Rightarrow> if m \<noteq> [] then m else currentBuilding st
         | None \<Rightarrow> currentBuilding st)
      else if CHR ''.'' \<in> set line \<or> CHR ''-'' \<in> set line then
        (case morseMatch line of
           Some run \<Rightarrow> trim run
         | None \<Rightarrow> currentBuilding st)
      else currentBuilding st)"
proof (cases "line = []")
  case True
  then show ?thesis by (simp add: handleDataLine_def)
next
  case False
  show ?thesis
    apply (simp only: handleDataLine_def False if_False autoSave_tail)
    apply (simp add: isWordBreak_def isLetterBreak_def isTagged_def split: option.splits)
    done
qed




text \<open>
  Claim C9. A line that is none of the recognized forms (no word break, no letter break,
  no valid Morse, no dot-dash pattern, no tagged payload) and holds neither a dot nor a
  dash leaves \<open>decodedText\<close> and \<open>currentBuilding\<close> as they were.
\<close>

theorem unrecognized_line_ignored:
  assumes "\<not> isRecognized line" "CHR ''.'' \<notin> set line" "CHR ''-'' \<notin> set line"
  shows "decodedText (handleDataLine autoSave st line) = decodedText st \<and>
         currentBuilding (handleDataLine autoSave st line) = currentBuilding st"
  using assms
  by (simp add: handleDataLine_decodedText handleDataLine_currentBuilding isRecognized_def)

lemma pong_unrecognized: "\<not> isRecognized ''PONG''"
  by (simp add: isRecognized_def isWordBreak_def isLetterBreak_def isValidMorse_def
      isMorseChar_def isWhiteSpace_def matchesDotDash_def isTagged_def startsWith_def)

theorem unrecognized_line_ignored_witness:
  "\<not> isRecognized ''PONG'' \<and> CHR ''.'' \<notin> set ''PONG'' \<and> CHR ''-'' \<notin> set ''PONG'' \<and>
   decodedText (handleDataLine True (initialSession\<lparr>currentBuilding := ''..'', decodedText := ''HI''\<rparr>) ''PONG'') = ''HI'' \<and>
   currentBuilding (handleDataLine True (initialSession\<lparr>currentBuilding := ''..'', decodedText := ''HI''\<rparr>) ''PONG'') = ''..''"
proof -
  have h: "CHR ''.'' \<notin> set ''PONG''" "CHR ''-'' \<notin> set ''PONG''" by simp_all
  show ?thesis
    using unrecognized_line_ignored [OF pong_unrecognized h, of True
        "initialSession\<lparr>currentBuilding := ''..'', decodedText := ''HI''\<rparr>"]
      pong_unrecognized h
    by simp
qed

section \<open>Concrete lines\<close>

lemmas decode_fallback_eval =
  decodeMorse_fallback_tokens trim_def isWhiteSpace_def decodeLetter_fallback_def orElse_def
  jsGet_def
  MORSE_CODE_MAP_def objectPrototype_def

lemma decodeMorse_fallback_examples:
  "decodeMorse_fallback (JStr ''.'') = ''E''"
  "decodeMorse_fallback (JStr ''-'') = ''T''"
  "decodeMorse_fallback (JStr ''.-'') = ''A''"
  "decodeMorse_fallback (JStr ''-...'') = ''B''"
  "decodeMorse_fallback (JStr ''...'') = ''S''"
  "decodeMorse_fallback (JStr ''......'') = ''?''"
  "decodeMorse_fallback (JStr ''.- ......'') = ''A?''"
  "decodeMorse_fallback (JStr ''.- -...'') = ''AB''"
  by (simp_all add: decode_fallback_eval)

lemmas classify_eval =
  isWordBreak_def isLetterBreak_def isValidMorse_def isMorseChar_def isWhiteSpace_def
  matchesDotDash_def isTagged_def startsWith_def

lemma valid_examples:
  "isValidMorse (JStr ''.'')" "isValidMorse (JStr ''-'')" "isValidMorse (JStr ''.- ......'')"
  "isValidMorse (JStr ''.- -...'')" "isValidMorse (JStr ''......'')"
  "isValidMorse (JStr ''.-'')" "isValidMorse (JStr ''-...'')" "isValidMorse (JStr ''...'')"
  by (simp_all add: classify_eval)

lemma break_examples:
  "isWordBreak ''/''" "\<not> isWordBreak ''|''" "isLetterBreak ''|''"
  "\<not> isWordBreak ''.''" "\<not> isLetterBreak ''.''"
  "\<not> isWordBreak ''-''" "\<not> isLetterBreak ''-''"
  "\<not> isWordBreak ''.- ......''" "\<not> isLetterBreak ''.- ......''"
  "\<not> isWordBreak ''.- -...''" "\<not> isLetterBreak ''.- -...''"
  by (simp_all add: classify_eval)

text \<open>What one line does to the two variables, for the lines used below.\<close>

lemma dot_line:
  "decodedText (handleDataLine autoSave st ''.'') = decodedText st @ ''E''"
  "currentBuilding (handleDataLine autoSave st ''.'') = ''.''"
  by (simp_all add: handleDataLine_decodedText handleDataLine_currentBuilding
      break_examples valid_examples appendDecoded_def decodeMorse_fallback_examples)

lemma dash_line:
  "decodedText (handleDataLine autoSave st ''-'') = decodedText st @ ''T''"
  "currentBuilding (handleDataLine autoSave st ''-'') = ''-''"
  by (simp_all add: handleDataLine_decodedText handleDataLine_currentBuilding
      break_examples valid_examples appendDecoded_def decodeMorse_fallback_examples)

lemma slash_line:
  "decodedText (handleDataLine autoSave st ''/'') =
     (if currentBuilding st \<noteq> [] then appendDecoded (decodedText st) (currentBuilding st)
      else decodedText st) @ '' ''"
  "currentBuilding (handleDataLine autoSave st ''/'') = []"
  by (simp_all add: handleDataLine_decodedText handleDataLine_currentBuilding break_examples)

lemma bar_line:
  "decodedText (handleDataLine autoSave st ''|'') =
     (if currentBuilding st \<noteq> [] then appendDecoded (decodedText st) (currentBuilding st)
      else decodedText st)"
  "currentBuilding (handleDataLine autoSave st ''|'') = []"
  by (simp_all add: handleDataLine_decodedText handleDataLine_currentBuilding break_examples)

text \<open>
  Claim C1 says that from the empty state the lines \<open>"."\<close>, \<open>"/"\<close> give the
  decoded text \<open>"E "\<close> and the lines \<open>"-"\<close>, \<open>"|"\<close>, \<open>"."\<close>, \<open>"/"\<close> give
  \<open>"TE "\<close>. The code decodes a complete line at once and also keeps it in
  \<open>currentBuilding\<close>, and the word break and the letter break that follow decode
  \<open>currentBuilding\<close> a second time: the results are \<open>"EE "\<close> and \<open>"TTEE "\<close>.
\<close>

theorem retained_pattern_decoded_again:
  "decodedText (feedLines False initialSession [''.'', ''/'']) = ''EE '' \<and>
   decodedText (feedLines False initialSession [''-'', ''|'', ''.'', ''/'']) = ''TTEE ''"
  by (simp add: feedLines_def dot_line dash_line slash_line bar_line appendDecoded_def
      decodeMorse_fallback_examples initialSession_def)






section \<open>Auto-save\<close>



lemma feedLines_simps:
  "feedLines autoSave st [] = st"
  "feedLines autoSave st (l # ls) = feedLines autoSave (handleDataLine autoSave st l) ls"
  "feedLines autoSave st (ls @ ls') = feedLines autoSave (feedLines autoSave st ls) ls'"
  by (simp_all add: feedLines_def)






section \<open>The two transports\<close>

lemma jsSplit_snoc_sep: "jsSplit sep (s @ [sep]) = jsSplit sep s @ [[]]"
proof (induction s)
  case Nil
  show ?case by simp
next
  case (Cons c cs)
  then show ?case using jsSplit_not_Nil [of sep cs] by (cases "jsSplit sep cs") auto
qed

lemma trim_Nil: "trim [] = []"
  by (simp add: trim_def)

lemma dropWhile_self: "xs = [] \<or> \<not> P (hd xs) \<Longrightarrow> dropWhile P xs = xs"
  by (cases xs) auto

lemma last_dropWhile: "dropWhile P xs \<noteq> [] \<Longrightarrow> last (dropWhile P xs) = last xs"
  by (induction xs) auto

lemma trim_idem: "trim (trim s) = trim s"
proof -
  let ?u = "dropWhile isWhiteSpace s"
  let ?v = "dropWhile isWhiteSpace (rev ?u)"
  have t: "trim s = rev ?v" by (simp add: trim_def)
  show ?thesis
  proof (cases "?v = []")
    case True
    have "trim s = []" by (simp only: t True rev.simps)
    then show ?thesis by (simp add: trim_Nil)
  next
    case False
    have u: "?u \<noteq> []"
    proof
      assume e: "?u = []"
      have "?v = []" unfolding e by simp
      with False show False ..
    qed
    have hv: "\<not> isWhiteSpace (hd ?v)" using False by (rule hd_dropWhile)
    have "last ?v = last (rev ?u)" using False by (rule last_dropWhile)
    also have "\<dots> = hd ?u" using u by (simp add: last_rev)
    finally have lv: "\<not> isWhiteSpace (last ?v)" using hd_dropWhile [OF u] by simp
    have "hd (rev ?v) = last ?v" using False by (simp add: hd_rev)
    with lv have "dropWhile isWhiteSpace (rev ?v) = rev ?v"
      by (intro dropWhile_self) simp
    moreover have "dropWhile isWhiteSpace ?v = ?v"
      using hv by (intro dropWhile_self) simp
    ultimately have "trim (rev ?v) = rev ?v"
      by (simp add: trim_def)
    then show ?thesis by (simp only: t)
  qed
qed

lemma trimmed_lines_pass:
  "\<forall>l \<in> set ls. l \<noteq> [] \<and> trim l = l \<Longrightarrow> map trim (filter (\<lambda>v. v \<noteq> []) ls) = ls"
  by (induction ls) auto

lemma bluetoothLines_trimmed:
  "l \<in> set (bluetoothLines data) \<Longrightarrow> l \<noteq> [] \<and> trim l = l"
  by (auto simp: bluetoothLines_def trim_idem)

lemma transform_whole_lines:
  assumes "chunk \<noteq> []" "last chunk = CHR 0x0A"
  shows "transform [] chunk = ([], bluetoothLines chunk)"
proof -
  from assms obtain s where chunk: "chunk = s @ [CHR 0x0A]"
    by (metis append_butlast_last_id)
  show ?thesis
    by (simp add: transform_def bluetoothLines_def chunk jsSplit_snoc_sep trim_Nil
        jsSplit_not_Nil Let_def)
qed

lemma pipeThrough_whole_lines:
  "list_all (\<lambda>chunk. chunk \<noteq> [] \<and> last chunk = CHR 0x0A) cs \<Longrightarrow>
   pipeThrough [] cs = concat (map bluetoothLines cs)"
  by (induction cs) (simp_all add: flush_def trim_Nil transform_whole_lines)

lemma serialLines_whole_lines:
  assumes "list_all (\<lambda>chunk. chunk \<noteq> [] \<and> last chunk = CHR 0x0A) cs"
  shows "serialLines cs = concat (map bluetoothLines cs)"
proof -
  let ?ls = "concat (map bluetoothLines cs)"
  have "\<forall>l \<in> set ?ls. l \<noteq> [] \<and> trim l = l"
    using bluetoothLines_trimmed by auto
  then have "map trim (filter (\<lambda>v. v \<noteq> []) ?ls) = ?ls"
    by (rule trimmed_lines_pass)
  then show ?thesis
    by (simp add: serialLines_def pipeThrough_whole_lines [OF assms])
qed

lemma feedLines_concat:
  "feedLines autoSave st (concat lss) = foldl (\<lambda>s ls. feedLines autoSave s ls) st lss"
  by (induction lss arbitrary: st) (simp_all add: feedLines_simps)

text \<open>
  Claim C3 says that both transports forward the same lines for the same chunks of text,
  a line split across two chunks included. The serial transformer keeps the text after
  the last newline for the next chunk; the Bluetooth handler splits every notification
  on its own. For the chunks \<open>".."\<close> and \<open>"-\n"\<close> the serial path forwards the one
  line \<open>"..-"\<close> (decoded U), the Bluetooth path the two lines \<open>".."\<close> and \<open>"-"\<close>
  (decoded I, then T).
\<close>

theorem split_line_counterexample:
  "serialLines [''..'', ''-'' @ [CHR 0x0A]] = [''..-''] \<and>
   concat (map bluetoothLines [''..'', ''-'' @ [CHR 0x0A]]) = [''..'', ''-''] \<and>
   decodedText (readSerialData False initialSession [''..'', ''-'' @ [CHR 0x0A]]) = ''U'' \<and>
   decodedText (bluetoothSession False initialSession [''..'', ''-'' @ [CHR 0x0A]]) = ''IT''"
proof -
  have serial: "serialLines [''..'', ''-'' @ [CHR 0x0A]] = [''..-'']"
    by (simp add: serialLines_def transform_def flush_def trim_def isWhiteSpace_def)
  have bt: "bluetoothLines ''..'' = [''..'']" "bluetoothLines (''-'' @ [CHR 0x0A]) = [''-'']"
    by (simp_all add: bluetoothLines_def trim_def isWhiteSpace_def)
  have dec: "decodeMorse_fallback (JStr ''..-'') = ''U''" "decodeMorse_fallback (JStr ''..'') = ''I''"
    by (simp_all add: decode_fallback_eval)
  have cls: "isValidMorse (JStr ''..-'')" "isValidMorse (JStr ''..'')"
    "\<not> isWordBreak ''..-''" "\<not> isLetterBreak ''..-''"
    "\<not> isWordBreak ''..''" "\<not> isLetterBreak ''..''"
    by (simp_all add: classify_eval)
  have "decodedText (readSerialData False initialSession [''..'', ''-'' @ [CHR 0x0A]]) = ''U''"
    unfolding readSerialData_def serial
    by (simp add: feedLines_simps handleDataLine_decodedText cls
        appendDecoded_def dec initialSession_def)
  moreover
  have "decodedText (bluetoothSession False initialSession [''..'', ''-'' @ [CHR 0x0A]]) = ''IT''"
    unfolding bluetoothSession_def foldl_Cons foldl_Nil handleBluetoothData_def bt
    by (simp add: feedLines_simps handleDataLine_decodedText handleDataLine_currentBuilding cls
        valid_examples break_examples decodeMorse_fallback_examples appendDecoded_def dec
        initialSession_def)
  ultimately show ?thesis
    using serial bt by simp
qed

text \<open>
  Claim C3, amended. When every chunk ends with a newline, so that no line is split
  across chunks, the serial path and the Bluetooth path hand the same trimmed, non-empty
  lines to \<open>handleDataLine\<close> in the same order, and the session ends in the same state.
\<close>

theorem transports_agree_on_whole_lines:
  assumes "list_all (\<lambda>chunk. chunk \<noteq> [] \<and> last chunk = CHR 0x0A) cs"
  shows "serialLines cs = concat (map bluetoothLines cs) \<and>
         readSerialData autoSave st cs = bluetoothSession autoSave st cs"
proof -
  have "handleBluetoothData autoSave = (\<lambda>s data. feedLines autoSave s (bluetoothLines data))"
    by (intro ext) (simp add: handleBluetoothData_def)
  then show ?thesis
    using serialLines_whole_lines [OF assms]
    by (simp add: readSerialData_def bluetoothSession_def feedLines_concat foldl_map)
qed

theorem transports_agree_on_whole_lines_witness:
  "list_all (\<lambda>chunk. chunk \<noteq> [] \<and> last chunk = CHR 0x0A)
     [''..-'' @ [CHR 0x0A], ''/'' @ [CHR 0x0A, CHR ''.'', CHR 0x0A]] \<and>
   serialLines [''..-'' @ [CHR 0x0A], ''/'' @ [CHR 0x0A, CHR ''.'', CHR 0x0A]] = [''..-'', ''/'', ''.''] \<and>
   concat (map bluetoothLines [''..-'' @ [CHR 0x0A], ''/'' @ [CHR 0x0A, CHR ''.'', CHR 0x0A]])
     = [''..-'', ''/'', ''.''] \<and>
   readSerialData True initialSession [''..-'' @ [CHR 0x0A], ''/'' @ [CHR 0x0A, CHR ''.'', CHR 0x0A]] =
   bluetoothSession True initialSession [''..-'' @ [CHR 0x0A], ''/'' @ [CHR 0x0A, CHR ''.'', CHR 0x0A]]"
proof -
  have h: "list_all (\<lambda>chunk. chunk \<noteq> [] \<and> last chunk = CHR 0x0A)
     [''..-'' @ [CHR 0x0A], ''/'' @ [CHR 0x0A, CHR ''.'', CHR 0x0A]]"
    by simp
  have bt: "bluetoothLines (''..-'' @ [CHR 0x0A]) = [''..-'']"
    "bluetoothLines (''/'' @ [CHR 0x0A, CHR ''.'', CHR 0x0A]) = [''/'', ''.'']"
    by (simp_all add: bluetoothLines_def trim_def isWhiteSpace_def)
  show ?thesis
    using transports_agree_on_whole_lines [OF h, of True initialSession] h bt
    by simp
qed

section \<open>Tagged payload lines\<close>

lemma jsSplit_hd: "hd (jsSplit sep s) = takeWhile (\<lambda>c. c \<noteq> sep) s"
  by (induction s) auto

lemma jsSplit_tl:
  "sep \<in> set s \<Longrightarrow> tl (jsSplit sep s) = jsSplit sep (drop 1 (dropWhile (\<lambda>c. c \<noteq> sep) s))"
  by (induction s) auto

lemma jsSplit_no_sep: "sep \<notin> set s \<Longrightarrow> jsSplit sep s = [s]"
  by (induction s) auto

lemma morseData_eq:
  "morseData line =
     (if CHR '':'' \<in> set line
      then Some (trim (takeWhile (\<lambda>c. c \<noteq> CHR '':'') (afterFirstColon line)))
      else None)"
proof (cases "CHR '':'' \<in> set line")
  case True
  let ?rest = "jsSplit (CHR '':'') (afterFirstColon line)"
  have "jsSplit (CHR '':'') line = hd (jsSplit (CHR '':'') line) # tl (jsSplit (CHR '':'') line)"
    using jsSplit_not_Nil [of "CHR '':''" line] by simp
  also have "tl (jsSplit (CHR '':'') line) = hd ?rest # tl ?rest"
    using jsSplit_not_Nil [of "CHR '':''" "afterFirstColon line"] True
    by (simp add: jsSplit_tl afterFirstColon_def)
  finally show ?thesis
    using True by (simp add: morseData_def jsSplit_hd)
next
  case False
  then show ?thesis by (simp add: morseData_def jsSplit_no_sep)
qed

lemma tagged_line:
  assumes "isTagged line"
  shows "line \<noteq> []" "\<not> isWordBreak line" "\<not> isLetterBreak line"
    "\<not> isValidMorse (JStr line)" "\<not> matchesDotDash line" "CHR '':'' \<in> set line"
proof -
  from assms obtain n where "take n line = ''BLINK:'' \<or> take n line = ''MORSE:''"
    unfolding isTagged_def startsWith_def by blast
  then have "line = ''BLINK:'' @ drop n line \<or> line = ''MORSE:'' @ drop n line"
    by (metis append_take_drop_id)
  then obtain r where line: "line = ''BLINK:'' @ r \<or> line = ''MORSE:'' @ r" by blast
  then show "line \<noteq> []" "\<not> isWordBreak line" "\<not> isLetterBreak line"
    "\<not> isValidMorse (JStr line)" "\<not> matchesDotDash line" "CHR '':'' \<in> set line"
    by (auto simp: classify_eval)
qed

text \<open>
  Claim C6 says that the payload of a tagged line is everything after the first colon,
  also when it holds a further colon. The code takes the second piece of
  \<open>line.split(':')\<close>: for \<open>"BLINK:.-:-"\<close> the text after the first colon is
  \<open>".-:-"\<close>, and \<open>currentBuilding\<close> becomes \<open>".-"\<close>.
\<close>

theorem second_colon_counterexample:
  "isTagged ''BLINK:.-:-'' \<and>
   trim (afterFirstColon ''BLINK:.-:-'') = ''.-:-'' \<and>
   currentBuilding (handleDataLine False initialSession ''BLINK:.-:-'') = ''.-'' \<and>
   currentBuilding (handleDataLine False initialSession ''BLINK:.-:-'')
     \<noteq> trim (afterFirstColon ''BLINK:.-:-'')"
proof -
  have t: "isTagged ''BLINK:.-:-''" by (simp add: isTagged_def startsWith_def)
  have a: "afterFirstColon ''BLINK:.-:-'' = ''.-:-''" by (simp add: afterFirstColon_def)
  have b: "trim ''.-:-'' = ''.-:-''" "trim ''.-'' = ''.-''"
    by (simp_all add: trim_def isWhiteSpace_def)
  have "currentBuilding (handleDataLine False initialSession ''BLINK:.-:-'') = ''.-''"
    using tagged_line [OF t] t
    by (simp add: handleDataLine_currentBuilding morseData_eq a b)
  then show ?thesis using t a b by simp
qed

text \<open>
  Claim C6, amended. For every line that starts with \<open>BLINK:\<close> or \<open>MORSE:\<close> (such a
  line matches no earlier branch), the payload is the text between the first colon and
  the next one, or the end of the line, trimmed. If it is not empty it becomes
  \<open>currentBuilding\<close>, otherwise \<open>currentBuilding\<close> stays; nothing is decoded and
  \<open>decodedText\<close> does not change.
\<close>

theorem tagged_payload_line:
  assumes "isTagged line"
  shows "decodedText (handleDataLine autoSave st line) = decodedText st \<and>
         currentBuilding (handleDataLine autoSave st line) =
           (let payload = trim (takeWhile (\<lambda>c. c \<noteq> CHR '':'') (afterFirstColon line))
            in if payload \<noteq> [] then payload else currentBuilding st)"
  using tagged_line [OF assms] assms
  by (simp add: handleDataLine_decodedText handleDataLine_currentBuilding morseData_eq Let_def)

theorem tagged_payload_line_witness:
  "isTagged ''MORSE: .-. '' \<and>
   decodedText (handleDataLine True (initialSession\<lparr>decodedText := ''HI''\<rparr>) ''MORSE: .-. '') = ''HI'' \<and>
   currentBuilding (handleDataLine True (initialSession\<lparr>decodedText := ''HI''\<rparr>) ''MORSE: .-. '') = ''.-.''"
proof -
  have t: "isTagged ''MORSE: .-. ''" by (simp add: isTagged_def startsWith_def)
  have a: "afterFirstColon ''MORSE: .-. '' = '' .-. ''" by (simp add: afterFirstColon_def)
  have b: "trim '' .-. '' = ''.-.''" by (simp add: trim_def isWhiteSpace_def)
  show ?thesis
    using tagged_payload_line [OF t, of True "initialSession\<lparr>decodedText := ''HI''\<rparr>"] t
    by (simp add: a b initialSession_def)
qed

section \<open>The fallback branch\<close>

lemma runsFrom_skip:
  "runsFrom [] (dropWhile (\<lambda>c. \<not> isMorseChar c) s) = runsFrom [] s"
  by (induction s) auto

lemma runsFrom_run:
  "cur \<noteq> [] \<or> (s \<noteq> [] \<and> isMorseChar (hd s)) \<Longrightarrow>
   runsFrom cur s = (cur @ takeWhile isMorseChar s) # runsFrom [] (dropWhile isMorseChar s)"
  by (induction s arbitrary: cur) auto

lemma morseMatch_first_run:
  assumes "\<exists>c \<in> set line. isMorseChar c"
  shows "runsFrom [] line \<noteq> [] \<and> morseMatch line = Some (hd (runsFrom [] line))"
proof -
  let ?rest = "dropWhile (\<lambda>c. \<not> isMorseChar c) line"
  from assms have rest: "?rest \<noteq> []" by (auto simp: dropWhile_eq_Nil_conv)
  then have "isMorseChar (hd ?rest)" using hd_dropWhile [of "\<lambda>c. \<not> isMorseChar c" line] by simp
  with rest have "runsFrom [] ?rest =
      takeWhile isMorseChar ?rest # runsFrom [] (dropWhile isMorseChar ?rest)"
    using runsFrom_run [of "[]" ?rest] by simp
  then have "runsFrom [] line =
      takeWhile isMorseChar ?rest # runsFrom [] (dropWhile isMorseChar ?rest)"
    by (simp only: runsFrom_skip)
  then show ?thesis using rest by (simp add: morseMatch_def Let_def)
qed

lemma dot_dash_isMorseChar: "isMorseChar (CHR ''.'')" "isMorseChar (CHR ''-'')"
  by (simp_all add: isMorseChar_def)

text \<open>
  What the fallback branch computes for a line that holds a dot or a dash: the regular
  expression search returns the first maximal run of characters of the class, the code
  trims it and assigns it, and \<open>decodedText\<close> does not change.
\<close>

lemma fallback_takes_first_run:
  assumes "line \<noteq> []" "\<not> isRecognized line" "CHR ''.'' \<in> set line \<or> CHR ''-'' \<in> set line"
  shows "runsFrom [] line \<noteq> [] \<and>
         currentBuilding (handleDataLine autoSave st line) = trim (hd (runsFrom [] line)) \<and>
         decodedText (handleDataLine autoSave st line) = decodedText st"
proof -
  from assms(3) have "\<exists>c \<in> set line. isMorseChar c"
    using dot_dash_isMorseChar by auto
  from morseMatch_first_run [OF this] assms show ?thesis
    by (simp add: handleDataLine_decodedText handleDataLine_currentBuilding isRecognized_def)
qed

text \<open>
  Claim C7 says that the fallback branch sets \<open>currentBuilding\<close> to the longest run
  of characters of the class in the line. The code, whose comment reads "try to extract
  morse if present", takes the first run. In the line \<open>"x y.-"\<close> the longest run is
  \<open>".-"\<close>, and in the firmware's own line \<open>"Morse so far: .-"\<close> it is \<open>" .-"\<close>; in
  both the first run is a single space, which trims to nothing, and \<open>currentBuilding\<close>,
  which held \<open>".."\<close>, is emptied. The branch has no test for an empty result, as the
  branch of the tagged lines has.
\<close>

theorem fallback_first_match_blank:
  "\<not> isRecognized ''x y.-'' \<and> CHR ''.'' \<in> set ''x y.-'' \<and>
   runsFrom [] ''x y.-'' = ['' '', ''.-''] \<and>
   longestRun ''x y.-'' = ''.-'' \<and>
   currentBuilding
     (handleDataLine False (initialSession\<lparr>currentBuilding := ''..''\<rparr>) ''x y.-'') = [] \<and>
   \<not> isRecognized ''Morse so far: .-'' \<and> CHR ''.'' \<in> set ''Morse so far: .-'' \<and>
   runsFrom [] ''Morse so far: .-'' = ['' '', '' '', '' .-''] \<and>
   longestRun ''Morse so far: .-'' = '' .-'' \<and>
   currentBuilding
     (handleDataLine False (initialSession\<lparr>currentBuilding := ''..''\<rparr>) ''Morse so far: .-'') = []"
proof -
  have u: "\<not> isRecognized ''x y.-''" "\<not> isRecognized ''Morse so far: .-''"
    by (simp_all add: isRecognized_def classify_eval)
  have r: "runsFrom [] ''x y.-'' = ['' '', ''.-'']"
    "runsFrom [] ''Morse so far: .-'' = ['' '', '' '', '' .-'']"
    by (simp_all add: isMorseChar_def isWhiteSpace_def)
  have l: "longestRun ''x y.-'' = ''.-''" "longestRun ''Morse so far: .-'' = '' .-''"
    unfolding longestRun_def r by simp_all
  have m: "morseMatch ''x y.-'' = Some '' ''" "morseMatch ''Morse so far: .-'' = Some '' ''"
    by (simp_all add: morseMatch_def isMorseChar_def isWhiteSpace_def)
  have t: "trim '' '' = []" by (simp add: trim_def isWhiteSpace_def)
  have c: "currentBuilding
      (handleDataLine False (initialSession\<lparr>currentBuilding := ''..''\<rparr>) ''x y.-'') = []"
    "currentBuilding
      (handleDataLine False (initialSession\<lparr>currentBuilding := ''..''\<rparr>) ''Morse so far: .-'') = []"
    using u by (simp_all add: handleDataLine_currentBuilding isRecognized_def m t)
  show ?thesis using u l c unfolding r by simp
qed

section \<open>Manual entry\<close>

lemma addManualInput_currentBuilding:
  "currentBuilding (addManualInput st) = currentBuilding st"
  by (simp add: addManualInput_def Let_def)

lemma manual_tokens:
  "splitWs ''.- / -...'' = [''.-'', ''/'', ''-...'']"
  "splitWs ''.- / ...'' = [''.-'', ''/'', ''...'']"
  by (simp_all add: isWhiteSpace_def)

lemma manual_entry_AB:
  "decodedText (addManualInput (st\<lparr>manualBox := ''.- / -...''\<rparr>)) = decodedText st @ ''A B''"
  by (simp add: addManualInput_def Let_def trim_def isWhiteSpace_def valid_examples
      decodeMorse_fallback_examples)

lemma manual_entry_AS:
  "decodedText (addManualInput (st\<lparr>manualBox := ''.- / ...''\<rparr>)) = decodedText st @ ''A S''"
  by (simp add: addManualInput_def Let_def trim_def isWhiteSpace_def valid_examples
      decodeMorse_fallback_examples)

text \<open>
  Claim C8 says that the manual entry \<open>".- / -..."\<close> appends \<open>"A S"\<close>. The token
  \<open>"-..."\<close> is the letter B in the table (S is \<open>"..."\<close>): the entry appends
  \<open>"A B"\<close>.
\<close>

theorem manual_entry_counterexample:
  "decodedText (addManualInput (initialSession\<lparr>manualBox := ''.- / -...''\<rparr>)) = ''A B'' \<and>
   decodedText (addManualInput (initialSession\<lparr>manualBox := ''.- / -...''\<rparr>)) \<noteq> ''A S''"
  using manual_entry_AB [of initialSession] by (simp add: initialSession_def)

text \<open>
  Claim C8, amended. The manual entry \<open>".- / -..."\<close> appends exactly \<open>"A B"\<close> to
  \<open>decodedText\<close>, and \<open>".- / ..."\<close> appends \<open>"A S"\<close>: every token between white
  space is validated and decoded on its own and the slash gives the word gap as one
  space. \<open>addManualInput\<close> never changes \<open>currentBuilding\<close>.
\<close>

theorem manual_entry_appends:
  "decodedText (addManualInput (st\<lparr>manualBox := ''.- / -...''\<rparr>)) = decodedText st @ ''A B'' \<and>
   decodedText (addManualInput (st\<lparr>manualBox := ''.- / ...''\<rparr>)) = decodedText st @ ''A S'' \<and>
   currentBuilding (addManualInput (st\<lparr>manualBox := ''.- / -...''\<rparr>)) = currentBuilding st \<and>
   currentBuilding (addManualInput st) = currentBuilding st"
  by (simp add: manual_entry_AB manual_entry_AS addManualInput_currentBuilding)

end
